theory Spec2Isabelle
  imports Complex_Main
begin

section \<open>Numbers and strings of the host language\<close>

text \<open>
  The posting screen (\<^verbatim>\<open>frontend/app/sender/post-parcel.tsx\<close>) computes with
  JavaScript numbers, which are binary64 floating-point numbers.  A finite number is
  represented by its value, a real; \<^verbatim>\<open>NaN\<close> and the two infinities are constructors of
  their own, because the comparisons and the truthiness test of the source treat them
  differently from finite numbers.  The two zeros are not distinguished.
\<close>

datatype jsnum = NaN | NegInf | Fin real | PosInf

text \<open>Truthiness of a number: \<^verbatim>\<open>NaN\<close> and zero are falsy, everything else is truthy.\<close>

fun js_truthy :: "jsnum \<Rightarrow> bool" where
  "js_truthy NaN = False"
| "js_truthy (Fin r) = (r \<noteq> 0)"
| "js_truthy NegInf = True"
| "js_truthy PosInf = True"

text \<open>The relational operators: every comparison with \<^verbatim>\<open>NaN\<close> is false.\<close>

fun js_le :: "jsnum \<Rightarrow> jsnum \<Rightarrow> bool" where
  "js_le NaN _ = False"
| "js_le _ NaN = False"
| "js_le NegInf _ = True"
| "js_le _ PosInf = True"
| "js_le (Fin a) (Fin b) = (a \<le> b)"
| "js_le (Fin _) NegInf = False"
| "js_le PosInf _ = False"

fun js_lt :: "jsnum \<Rightarrow> jsnum \<Rightarrow> bool" where
  "js_lt NaN _ = False"
| "js_lt _ NaN = False"
| "js_lt (Fin a) (Fin b) = (a < b)"
| "js_lt NegInf NegInf = False"
| "js_lt NegInf _ = True"
| "js_lt PosInf _ = False"
| "js_lt (Fin _) PosInf = True"
| "js_lt (Fin _) NegInf = False"

definition js_ge :: "jsnum \<Rightarrow> jsnum \<Rightarrow> bool" where
  "js_ge a b = js_le b a"

definition js_gt :: "jsnum \<Rightarrow> jsnum \<Rightarrow> bool" where
  "js_gt a b = js_lt b a"

text \<open>The operator \<^verbatim>\<open>x || d\<close> on numbers: \<open>x\<close> when it is truthy, \<open>d\<close> otherwise.\<close>

definition js_or :: "jsnum \<Rightarrow> jsnum \<Rightarrow> jsnum" where
  "js_or x d = (if js_truthy x then x else d)"

text \<open>
  \<^verbatim>\<open>Math.round\<close> rounds to the nearest integer, a tie going towards plus infinity.
\<close>

definition Math_round :: "real \<Rightarrow> int" where
  "Math_round x = \<lfloor>x + 1 / 2\<rfloor>"

text \<open>
  \<^verbatim>\<open>Math.atan2 y x\<close> on reals, quadrant by quadrant; the origin gives 0.
\<close>

definition Math_atan2 :: "real \<Rightarrow> real \<Rightarrow> real" where
  "Math_atan2 y x =
     (if 0 < x then arctan (y / x)
      else if x < 0 then (if 0 \<le> y then arctan (y / x) + pi else arctan (y / x) - pi)
      else if 0 < y then pi / 2
      else if y < 0 then - (pi / 2)
      else 0)"

subsection \<open>Binary64 arithmetic\<close>

text \<open>
  Rounding of a real to binary64, to nearest with ties to even: the spacing of the
  format at \<open>x\<close> is \<open>2 powi (e - 52)\<close>, where \<open>e\<close> is the binary exponent of \<open>x\<close> and at
  least \<open>- 1022\<close> (below that the numbers are subnormal, with a fixed spacing); a result of
  magnitude \<open>2 ^ 1024\<close> or more overflows to an infinity.
\<close>

definition rne :: "real \<Rightarrow> int" where
  "rne y =
     (let f = \<lfloor>y\<rfloor>
      in if y - of_int f < 1 / 2 then f
         else if 1 / 2 < y - of_int f then f + 1
         else if even f then f else f + 1)"

definition binade :: "real \<Rightarrow> int" where
  "binade x = max (- 1022) \<lfloor>log 2 \<bar>x\<bar>\<rfloor>"

definition overflow_threshold :: real where
  "overflow_threshold = 2 ^ 1024"

definition rnd :: "real \<Rightarrow> jsnum" where
  "rnd x =
     (if x = 0 then Fin 0
      else
        (let u = 2 powi (binade x - 52);
             v = of_int (rne (x / u)) * u
         in if overflow_threshold \<le> \<bar>v\<bar> then (if 0 < x then PosInf else NegInf)
            else Fin v))"

text \<open>
  The operators \<^verbatim>\<open>*\<close> and \<^verbatim>\<open>+\<close>: the exact result is rounded; \<^verbatim>\<open>NaN\<close> is
  contagious, and so are the undefined forms with an infinity.
\<close>

fun js_mul :: "jsnum \<Rightarrow> jsnum \<Rightarrow> jsnum" where
  "js_mul NaN _ = NaN"
| "js_mul _ NaN = NaN"
| "js_mul (Fin a) (Fin b) = rnd (a * b)"
| "js_mul PosInf (Fin b) = (if 0 < b then PosInf else if b < 0 then NegInf else NaN)"
| "js_mul NegInf (Fin b) = (if 0 < b then NegInf else if b < 0 then PosInf else NaN)"
| "js_mul (Fin a) PosInf = (if 0 < a then PosInf else if a < 0 then NegInf else NaN)"
| "js_mul (Fin a) NegInf = (if 0 < a then NegInf else if a < 0 then PosInf else NaN)"
| "js_mul PosInf PosInf = PosInf"
| "js_mul NegInf NegInf = PosInf"
| "js_mul PosInf NegInf = NegInf"
| "js_mul NegInf PosInf = NegInf"

fun js_add :: "jsnum \<Rightarrow> jsnum \<Rightarrow> jsnum" where
  "js_add NaN _ = NaN"
| "js_add _ NaN = NaN"
| "js_add (Fin a) (Fin b) = rnd (a + b)"
| "js_add PosInf NegInf = NaN"
| "js_add NegInf PosInf = NaN"
| "js_add PosInf _ = PosInf"
| "js_add _ PosInf = PosInf"
| "js_add NegInf _ = NegInf"
| "js_add _ NegInf = NegInf"

text \<open>
  \<^verbatim>\<open>Math.round\<close> on a number: \<^verbatim>\<open>NaN\<close> and the infinities are returned as they are.
\<close>

fun Math_round_js :: "jsnum \<Rightarrow> jsnum" where
  "Math_round_js (Fin x) = Fin (of_int \<lfloor>x + 1 / 2\<rfloor>)"
| "Math_round_js x = x"

subsection \<open>parseFloat\<close>

text \<open>
  \<^verbatim>\<open>parseFloat\<close> skips leading white space and reads the longest prefix that is a decimal
  literal: an optional sign, then \<^verbatim>\<open>Infinity\<close> or digits with an optional fraction and an
  optional exponent.  The result is the binary64 number nearest to the value of the
  literal, and \<^verbatim>\<open>NaN\<close> without such a prefix.  A string is a list of characters with
  codes below 256: the white space characters in that range are the five control
  characters from tab to carriage return, the space and the no-break space.
\<close>

definition is_space :: "char \<Rightarrow> bool" where
  "is_space c =
     (c \<in> set [CHR 0x09, CHR 0x0A, CHR 0x0B, CHR 0x0C, CHR 0x0D, CHR 0x20, CHR 0xA0])"

definition is_digit :: "char \<Rightarrow> bool" where
  "is_digit c = (c \<in> set ''0123456789'')"

definition digit_val :: "char \<Rightarrow> nat" where
  "digit_val c = of_char c - 48"

definition digits_val :: "string \<Rightarrow> nat" where
  "digits_val ds = foldl (\<lambda>acc c. 10 * acc + digit_val c) 0 ds"

text \<open>An optional sign: whether it is a minus, and the rest of the input.\<close>

fun read_sign :: "string \<Rightarrow> bool \<times> string" where
  "read_sign [] = (False, [])"
| "read_sign (c # r) =
     (if c = CHR ''-'' then (True, r) else if c = CHR ''+'' then (False, r) else (False, c # r))"

text \<open>The fraction: the digits after a decimal point, if there is a point.\<close>

fun read_fraction :: "string \<Rightarrow> string" where
  "read_fraction [] = []"
| "read_fraction (c # r) = (if c = CHR ''.'' then takeWhile is_digit r else [])"

fun after_fraction :: "string \<Rightarrow> string" where
  "after_fraction [] = []"
| "after_fraction (c # r) = (if c = CHR ''.'' then dropWhile is_digit r else c # r)"

text \<open>
  The exponent part counts only when at least one digit follows the \<^verbatim>\<open>e\<close> and its
  optional sign; otherwise the literal ends before the \<^verbatim>\<open>e\<close>.
\<close>

fun read_exponent :: "string \<Rightarrow> int" where
  "read_exponent [] = 0"
| "read_exponent (c # r) =
     (if c = CHR ''e'' \<or> c = CHR ''E'' then
        (let (neg, r') = read_sign r; ds = takeWhile is_digit r'
         in if ds = [] then 0 else if neg then - int (digits_val ds) else int (digits_val ds))
      else 0)"

definition scale10 :: "real \<Rightarrow> int \<Rightarrow> real" where
  "scale10 m e = (if 0 \<le> e then m * 10 ^ nat e else m / 10 ^ nat (- e))"

definition parseFloat :: "string \<Rightarrow> jsnum" where
  "parseFloat input =
     (let (neg, u) = read_sign (dropWhile is_space input)
      in if take 8 u = ''Infinity'' then (if neg then NegInf else PosInf)
         else
           (let ip = takeWhile is_digit u;
                r1 = dropWhile is_digit u;
                fp = read_fraction r1;
                r2 = after_fraction r1
            in if ip = [] \<and> fp = [] then NaN
               else
                 (let m = scale10 (real (digits_val ip) + real (digits_val fp) / 10 ^ length fp)
                            (read_exponent r2)
                  in rnd (if neg then - m else m))))"

section \<open>The posting form\<close>

datatype category = documents | clothing | food | electronics | other

datatype timing = asap | within_2h | within_4h | scheduled

text \<open>The state of the screen: one field for each \<^verbatim>\<open>useState\<close> of the component.\<close>

record form_state =
  loading :: bool
  step :: int
  pickupAddress :: string
  pickupLat :: real
  pickupLng :: real
  dropoffAddress :: string
  dropoffLat :: real
  dropoffLng :: real
  category :: category
  weight :: string
  declaredValue :: string
  photos :: "string list"
  timing :: timing
  calculatedPrice :: int

definition initial_state :: form_state where
  "initial_state =
     \<lparr> loading = False, step = 1,
       pickupAddress = [], pickupLat = 15.4909, pickupLng = 73.8278,
       dropoffAddress = [], dropoffLat = 15.2832, dropoffLng = 73.9685,
       category = documents, weight = [], declaredValue = [], photos = [],
       timing = asap, calculatedPrice = 0 \<rparr>"

section \<open>Distance and price\<close>

text \<open>
  \<^verbatim>\<open>calculateDistance\<close>: the haversine formula on the coordinates of the form, in
  kilometres.  The intermediate \<open>a\<close> is kept as a function of its own.
\<close>

definition haversine_a :: "form_state \<Rightarrow> real" where
  "haversine_a s =
     (let lat1Rad = (pickupLat s * pi) / 180;
          lat2Rad = (dropoffLat s * pi) / 180;
          dlat = ((dropoffLat s - pickupLat s) * pi) / 180;
          dlng = ((dropoffLng s - pickupLng s) * pi) / 180
      in sin (dlat / 2) * sin (dlat / 2) +
         cos lat1Rad * cos lat2Rad * sin (dlng / 2) * sin (dlng / 2))"

definition calculateDistance :: "form_state \<Rightarrow> real" where
  "calculateDistance s =
     (let R = 6371;
          a = haversine_a s;
          c = 2 * Math_atan2 (sqrt a) (sqrt (1 - a))
      in R * c)"

text \<open>The tier of the distance: the first assignment to \<^verbatim>\<open>price\<close>.\<close>

definition base_price :: "real \<Rightarrow> real" where
  "base_price distance =
     (if distance < 0.5 then 20
      else if distance < 1.0 then 25
      else if distance < 2.0 then 30
      else 25 + 4 * distance)"

text \<open>The two multipliers, each an update of \<^verbatim>\<open>price\<close> under its condition.\<close>

definition apply_weight :: "jsnum \<Rightarrow> real \<Rightarrow> real" where
  "apply_weight weightNum price =
     (if js_ge weightNum (Fin 2) \<and> js_le weightNum (Fin 5) then price * 1.2 else price)"

definition apply_timing :: "timing \<Rightarrow> real \<Rightarrow> real" where
  "apply_timing t price = (if t = asap then price * 1.15 else price)"

text \<open>The body of \<^verbatim>\<open>calculatePrice\<close> once the distance and the weight are bound.\<close>

definition price_of :: "real \<Rightarrow> jsnum \<Rightarrow> timing \<Rightarrow> int" where
  "price_of distance weightNum t =
     (let price = base_price distance;
          price = apply_weight weightNum price;
          price = apply_timing t price
      in Math_round price)"

text \<open>
  The functions of this section compute with exact reals: the trigonometric functions of
  \<^verbatim>\<open>Math\<close> are only known up to the approximation of the engine, so the distance is
  taken as its mathematical value, and the price of such a distance likewise.  The
  arithmetic of the price itself is fixed by the number format.  The following
  function is the body of \<^verbatim>\<open>calculatePrice\<close> again, after the distance and the weight
  are bound, now on any number that the distance may be and with each
  product and sum rounded to binary64.  The literals 0.5, 1, 2, 4, 5, 20, 25 and 30 are
  binary64 numbers; 1.2 and 1.15 denote the nearest ones.
\<close>

definition price_b64 :: "jsnum \<Rightarrow> jsnum \<Rightarrow> timing \<Rightarrow> jsnum" where
  "price_b64 distance weightNum t =
     (let price =
            (if js_lt distance (Fin 0.5) then Fin 20
             else if js_lt distance (Fin 1.0) then Fin 25
             else if js_lt distance (Fin 2.0) then Fin 30
             else js_add (Fin 25) (js_mul (Fin 4) distance));
          price =
            (if js_ge weightNum (Fin 2) \<and> js_le weightNum (Fin 5)
             then js_mul price (rnd 1.2) else price);
          price = (if t = asap then js_mul price (rnd 1.15) else price)
      in Math_round_js price)"

text \<open>The weight used for the price: the reading of the weight field, or 0.5.\<close>

definition weightNum :: "form_state \<Rightarrow> jsnum" where
  "weightNum s = js_or (parseFloat (weight s)) (Fin 0.5)"

definition calculatePrice :: "form_state \<Rightarrow> int" where
  "calculatePrice s =
     (let distance = calculateDistance s
      in price_of distance (weightNum s) (timing s))"

section \<open>The steps of the form\<close>

text \<open>\<^verbatim>\<open>String.prototype.trim\<close>: white space is removed at both ends.\<close>

definition js_trim :: "string \<Rightarrow> string" where
  "js_trim x = rev (dropWhile is_space (rev (dropWhile is_space x)))"

text \<open>A call of \<^verbatim>\<open>Alert.alert\<close> with its title and its message.\<close>

datatype alert = Alert string string

text \<open>
  \<^verbatim>\<open>handleNextStep\<close>: the alert it shows, if any, and the state after it.  Each
  \<^verbatim>\<open>return\<close> after an alert leaves the state as it was.
\<close>

definition handleNextStep :: "form_state \<Rightarrow> alert option \<times> form_state" where
  "handleNextStep s =
     (if step s = 1 then
        (if js_trim (pickupAddress s) = [] \<or> js_trim (dropoffAddress s) = [] then
           (Some (Alert ''Error'' ''Please enter both pickup and dropoff addresses''), s)
         else (None, s\<lparr>step := 2\<rparr>))
      else if step s = 2 then
        (if weight s = [] \<or> js_le (parseFloat (weight s)) (Fin 0)
              \<or> js_gt (parseFloat (weight s)) (Fin 5) then
           (Some (Alert ''Error'' ''Weight must be between 0.1 and 5 kg''), s)
         else if declaredValue s = [] \<or> js_le (parseFloat (declaredValue s)) (Fin 0) then
           (Some (Alert ''Error'' ''Please enter declared value''), s)
         else if length (photos s) = 0 then
           (Some (Alert ''Info'' ''Please add at least one photo of the parcel''), s)
         else (None, s\<lparr>step := 3\<rparr>))
      else if step s = 3 then
        (None, s\<lparr>calculatedPrice := calculatePrice s, step := 4\<rparr>)
      else (None, s))"

text \<open>
  The body of the request that \<^verbatim>\<open>handleSubmit\<close> posts to \<^verbatim>\<open>/deliveries\<close>.  The
  answer of the server, and the alert and the navigation that follow it, are outside
  the model.
\<close>

record delivery_data =
  pickup_address :: string
  pickup_lat :: real
  pickup_lng :: real
  dropoff_address :: string
  dropoff_lat :: real
  dropoff_lng :: real
  parcel_category :: category
  weight_kg :: jsnum
  declared_value :: jsnum
  parcel_photos_base64 :: "string list"
  timing_preference :: timing
  scheduled_time :: "string option"

definition handleSubmit :: "form_state \<Rightarrow> delivery_data" where
  "handleSubmit s =
     \<lparr> pickup_address = js_trim (pickupAddress s),
       pickup_lat = pickupLat s, pickup_lng = pickupLng s,
       dropoff_address = js_trim (dropoffAddress s),
       dropoff_lat = dropoffLat s, dropoff_lng = dropoffLng s,
       parcel_category = category s,
       weight_kg = parseFloat (weight s),
       declared_value = parseFloat (declaredValue s),
       parcel_photos_base64 = photos s,
       timing_preference = timing s,
       scheduled_time = None \<rparr>"

text \<open>
  What the user can do on the screen.  A control exists only while its step is
  rendered: the photo button while fewer than three photos are attached, a remove
  button for each attached photo, the three timing cards, the back button after the
  first step, and the footer button, which submits on the fourth step and calls
  \<^verbatim>\<open>handleNextStep\<close> on the others.  An event whose control is not rendered changes
  nothing.
\<close>

datatype event =
    ChangePickupAddress string
  | ChangeDropoffAddress string
  | SelectCategory category
  | ChangeWeight string
  | ChangeDeclaredValue string
  | PickImage string
  | RemovePhoto nat
  | SelectTiming timing
  | PressBack
  | PressNext

datatype effect = ShowAlert alert | PostDelivery delivery_data

fun fire :: "event \<Rightarrow> form_state \<Rightarrow> effect list \<times> form_state" where
  "fire (ChangePickupAddress x) s = ([], if step s = 1 then s\<lparr>pickupAddress := x\<rparr> else s)"
| "fire (ChangeDropoffAddress x) s = ([], if step s = 1 then s\<lparr>dropoffAddress := x\<rparr> else s)"
| "fire (SelectCategory c) s = ([], if step s = 2 then s\<lparr>category := c\<rparr> else s)"
| "fire (ChangeWeight x) s = ([], if step s = 2 then s\<lparr>weight := x\<rparr> else s)"
| "fire (ChangeDeclaredValue x) s = ([], if step s = 2 then s\<lparr>declaredValue := x\<rparr> else s)"
| "fire (PickImage img) s =
     ([], if step s = 2 \<and> length (photos s) < 3 then s\<lparr>photos := photos s @ [img]\<rparr> else s)"
| "fire (RemovePhoto i) s =
     ([], if step s = 2 \<and> i < length (photos s)
          then s\<lparr>photos := take i (photos s) @ drop (Suc i) (photos s)\<rparr> else s)"
| "fire (SelectTiming t) s =
     ([], if step s = 3 \<and> t \<noteq> scheduled then s\<lparr>timing := t\<rparr> else s)"
| "fire PressBack s = ([], if step s > 1 then s\<lparr>step := step s - 1\<rparr> else s)"
| "fire PressNext s =
     (if loading s then ([], s)
      else if step s = 4 then ([PostDelivery (handleSubmit s)], s)
      else (case handleNextStep s of
              (Some a, s') \<Rightarrow> ([ShowAlert a], s')
            | (None, s') \<Rightarrow> ([], s')))"

text \<open>A session: the events in order, the effects collected.\<close>

fun run :: "event list \<Rightarrow> form_state \<Rightarrow> effect list \<times> form_state" where
  "run [] s = ([], s)"
| "run (e # es) s =
     (let (out1, s1) = fire e s; (out2, s2) = run es s1 in (out1 @ out2, s2))"

section \<open>The specification's formulas\<close>

text \<open>
  The pricing rule in the words of the specification: a base fare by distance tier, a
  weight multiplier, a timing multiplier, and one rounding to the nearest unit.
\<close>

definition spec_base :: "real \<Rightarrow> real" where
  "spec_base d =
     (if d < 0.5 then 20
      else if 0.5 \<le> d \<and> d < 1.0 then 25
      else if 1.0 \<le> d \<and> d < 2.0 then 30
      else 25 + 4 * d)"

definition spec_weight_multiplier :: "jsnum \<Rightarrow> real" where
  "spec_weight_multiplier w = (if js_le (Fin 2.0) w \<and> js_le w (Fin 5.0) then 1.2 else 1)"

definition spec_timing_multiplier :: "timing \<Rightarrow> real" where
  "spec_timing_multiplier t = (if t = asap then 1.15 else 1)"

definition spec_price :: "real \<Rightarrow> jsnum \<Rightarrow> timing \<Rightarrow> int" where
  "spec_price d w t =
     round (spec_base d * spec_weight_multiplier w * spec_timing_multiplier t)"

text \<open>
  The same rule with the products taken in binary64 arithmetic, in the order that the
  specification gives: the base fare, times the weight multiplier, times the timing
  multiplier, then one rounding to an integer.
\<close>

definition spec_base_b64 :: "jsnum \<Rightarrow> jsnum" where
  "spec_base_b64 d =
     (if js_lt d (Fin 0.5) then Fin 20
      else if js_le (Fin 0.5) d \<and> js_lt d (Fin 1.0) then Fin 25
      else if js_le (Fin 1.0) d \<and> js_lt d (Fin 2.0) then Fin 30
      else js_add (Fin 25) (js_mul (Fin 4) d))"

definition spec_weight_multiplier_b64 :: "jsnum \<Rightarrow> jsnum" where
  "spec_weight_multiplier_b64 w =
     (if js_le (Fin 2.0) w \<and> js_le w (Fin 5.0) then rnd 1.2 else Fin 1)"

definition spec_timing_multiplier_b64 :: "timing \<Rightarrow> jsnum" where
  "spec_timing_multiplier_b64 t = (if t = asap then rnd 1.15 else Fin 1)"

definition spec_price_b64 :: "jsnum \<Rightarrow> jsnum \<Rightarrow> timing \<Rightarrow> jsnum" where
  "spec_price_b64 d w t =
     Math_round_js
       (js_mul (js_mul (spec_base_b64 d) (spec_weight_multiplier_b64 w))
          (spec_timing_multiplier_b64 t))"

text \<open>A number is a binary64 number when rounding leaves it as it is.\<close>

definition is_b64 :: "jsnum \<Rightarrow> bool" where
  "is_b64 x = (case x of Fin v \<Rightarrow> rnd v = Fin v | _ \<Rightarrow> True)"

text \<open>The form with pickup and drop-off exchanged.\<close>

definition swap_endpoints :: "form_state \<Rightarrow> form_state" where
  "swap_endpoints s =
     s\<lparr> pickupLat := dropoffLat s, pickupLng := dropoffLng s,
        dropoffLat := pickupLat s, dropoffLng := pickupLng s \<rparr>"







text \<open>The two endpoints of a form as coordinate pairs.\<close>

definition pickup :: "form_state \<Rightarrow> real \<times> real" where
  "pickup s = (pickupLat s, pickupLng s)"

definition dropoff :: "form_state \<Rightarrow> real \<times> real" where
  "dropoff s = (dropoffLat s, dropoffLng s)"

section \<open>Example sessions\<close>

text \<open>
  A sender fills in both addresses, goes to the second step, types a weight and a
  declared value, attaches one photo and presses the footer button.
\<close>

definition fill_parcel :: "string \<Rightarrow> event list" where
  "fill_parcel w =
     [ChangePickupAddress ''Panaji'', ChangeDropoffAddress ''Margao'', PressNext,
      ChangeWeight w, ChangeDeclaredValue ''500'', PickImage ''photo'', PressNext]"

definition filled_form :: "string \<Rightarrow> form_state" where
  "filled_form w =
     initial_state\<lparr> pickupAddress := ''Panaji'', dropoffAddress := ''Margao'',
                    weight := w, declaredValue := ''500'', photos := [''photo''] \<rparr>"

text \<open>
  The worked example of the documentation: Panaji to Margao, a parcel of 0.5 kg, to be
  delivered within two hours.
\<close>

definition worked_example :: form_state where
  "worked_example =
     initial_state\<lparr> pickupLat := 15.4909, pickupLng := 73.8278,
                    dropoffLat := 15.2832, dropoffLng := 73.9685,
                    weight := ''0.5'', timing := within_2h \<rparr>"


section \<open>Rounding to binary64\<close>

lemma rne_of_int [simp]: "rne (of_int k) = k"
  by (simp add: rne_def)

lemma rne_unique: "\<bar>y - of_int n\<bar> < 1 / 2 \<Longrightarrow> rne y = n"
proof -
  assume a: "\<bar>y - of_int n\<bar> < 1 / 2"
  show ?thesis
  proof (cases "of_int n \<le> y")
    case True
    have "\<lfloor>y\<rfloor> = n"
    proof (rule floor_unique)
      show "of_int n \<le> y" by (rule True)
      show "y < of_int n + 1" using a by linarith
    qed
    then show ?thesis using a True by (simp add: rne_def)
  next
    case False
    have f: "\<lfloor>y\<rfloor> = n - 1"
    proof (rule floor_unique)
      show "of_int (n - 1) \<le> y" unfolding of_int_diff of_int_1 using a by linarith
      show "y < of_int (n - 1) + 1" unfolding of_int_diff of_int_1 using False by linarith
    qed
    have "1 / 2 < y - of_int (n - 1)" unfolding of_int_diff of_int_1 using a by linarith
    then show ?thesis using f by (simp add: rne_def)
  qed
qed

lemma rne_close: "\<bar>y - of_int (rne y)\<bar> \<le> 1 / 2"
proof -
  have "of_int \<lfloor>y\<rfloor> \<le> y" "y < of_int \<lfloor>y\<rfloor> + 1" by linarith+
  then show ?thesis unfolding rne_def Let_def by (simp; linarith)
qed

lemma powi_powr: "(2::real) powi k = 2 powr (of_int k)"
  by (simp add: powr_real_of_int')

lemma log2_powi: "log 2 ((2::real) powi k) = of_int k"
  by (simp add: powi_powr)

lemma floor_log2_eq:
  fixes x :: real
  assumes "2 powi e \<le> x" "x < 2 powi (e + 1)"
  shows "\<lfloor>log 2 x\<rfloor> = e"
proof -
  have "(0::real) < 2 powi e" by simp
  with assms(1) have x0: "0 < x" by linarith
  have "log 2 (2 powi e) \<le> log 2 x" using assms(1) x0 by simp
  moreover have "log 2 x < log 2 (2 powi (e + 1))" using assms(2) x0 by simp
  ultimately show ?thesis unfolding log2_powi by (intro floor_unique) simp_all
qed

lemma floor_log2_bounds:
  fixes x :: real
  assumes "0 < x"
  shows "2 powi \<lfloor>log 2 x\<rfloor> \<le> x" "x < 2 powi (\<lfloor>log 2 x\<rfloor> + 1)"
proof -
  have "of_int \<lfloor>log 2 x\<rfloor> \<le> log 2 x" by simp
  then show "2 powi \<lfloor>log 2 x\<rfloor> \<le> x"
    unfolding powi_powr using le_log_iff [of 2 x "of_int \<lfloor>log 2 x\<rfloor>"] assms by simp
  have "log 2 x < of_int (\<lfloor>log 2 x\<rfloor> + 1)" by linarith
  then show "x < 2 powi (\<lfloor>log 2 x\<rfloor> + 1)"
    unfolding powi_powr using log_less_iff [of 2 x "of_int (\<lfloor>log 2 x\<rfloor> + 1)"] assms by simp
qed


lemma binade_eval:
  assumes "2 powi e \<le> \<bar>x\<bar>" "\<bar>x\<bar> < 2 powi (e + 1)"
  shows "binade x = max (- 1022) e"
  using floor_log2_eq [OF assms] by (simp add: binade_def)

lemma rnd_eval:
  assumes "2 powi e \<le> \<bar>x\<bar>" "\<bar>x\<bar> < 2 powi (e + 1)"
    and "u = 2 powi (max (- 1022) e - 52)"
    and "\<bar>x / u - of_int n\<bar> < 1 / 2"
    and "\<bar>of_int n * u\<bar> < overflow_threshold"
  shows "rnd x = Fin (of_int n * u)"
proof -
  have "(0::real) < 2 powi e" by simp
  with assms(1) have "0 < \<bar>x\<bar>" by linarith
  then have x0: "x \<noteq> 0" by simp
  have b: "binade x = max (- 1022) e" using assms(1,2) by (rule binade_eval)
  have r: "rne (x / u) = n" using assms(4) by (rule rne_unique)
  show ?thesis
    using x0 r assms(5) by (simp add: rnd_def b flip: assms(3))
qed

lemma powi_nonneg_int: "0 \<le> j \<Longrightarrow> (2::real) powi j = of_int (2 ^ nat j)"
  by (simp add: power_int_def)

lemma representable:
  fixes n :: int and q :: int
  assumes n: "\<bar>n\<bar> \<le> 2 ^ 53" and q: "- 1074 \<le> q"
    and v: "v = of_int n * 2 powi q" and fin: "\<bar>v\<bar> < overflow_threshold"
  shows "rnd v = Fin v"
proof (cases "v = 0")
  case True
  then show ?thesis by (simp add: rnd_def)
next
  case False
  define e where "e = binade v"
  define u :: real where "u = 2 powi (e - 52)"
  have u0: "0 < u" by (simp add: u_def)
  have av: "\<bar>v\<bar> = of_int \<bar>n\<bar> * 2 powi q" by (simp add: v abs_mult)
  have vpos: "0 < \<bar>v\<bar>" using False by simp
  have "\<exists>k::int. v / u = of_int k"
  proof (cases "\<bar>n\<bar> = 2 ^ 53")
    case True
    then have "\<bar>v\<bar> = 2 powi (q + 53)"
      by (simp add: av power_int_add)
    then have "\<lfloor>log 2 \<bar>v\<bar>\<rfloor> = q + 53"
      by (intro floor_log2_eq) (simp_all add: power_int_add)
    then have e: "e = q + 53" using q by (simp add: e_def binade_def)
    have "e - 52 = q + 1" by (simp add: e)
    then have "u = 2 powi (q + 1)" by (simp only: u_def)
    then have "v / u = of_int n * (2 powi q / 2 powi (q + 1))"
      by (simp only: v times_divide_eq_right)
    also have "(2::real) powi q / 2 powi (q + 1) = 1 / 2"
      by (simp add: power_int_add)
    finally have "v / u = of_int n / 2" by simp
    moreover have "n = 2 ^ 53 \<or> n = - (2 ^ 53)" using True by linarith
    then have "even n" by auto
    then have "n = 2 * (n div 2)" by simp
    ultimately have "v / u = of_int (n div 2)"
      by (metis (no_types, opaque_lifting) nonzero_mult_div_cancel_left of_int_mult of_int_numeral
          zero_neq_numeral)
    then show ?thesis by blast
  next
    case False
    with n have "\<bar>n\<bar> < 2 ^ 53" by linarith
    then have "(of_int \<bar>n\<bar> :: real) < 2 ^ 53"
      by (metis of_int_less_iff of_int_numeral of_int_power)
    then have "\<bar>v\<bar> < 2 ^ 53 * 2 powi q" unfolding av by simp
    also have "\<dots> = 2 powi (q + 53)" by (simp add: power_int_add)
    finally have lt: "\<bar>v\<bar> < 2 powi (q + 53)" .
    have "2 powi \<lfloor>log 2 \<bar>v\<bar>\<rfloor> \<le> \<bar>v\<bar>" using vpos by (rule floor_log2_bounds)
    with lt have pl: "(2::real) powi \<lfloor>log 2 \<bar>v\<bar>\<rfloor> < 2 powi (q + 53)" by linarith
    have "\<lfloor>log 2 \<bar>v\<bar>\<rfloor> < q + 53"
    proof (rule ccontr)
      assume "\<not> \<lfloor>log 2 \<bar>v\<bar>\<rfloor> < q + 53"
      then have "q + 53 \<le> \<lfloor>log 2 \<bar>v\<bar>\<rfloor>" by simp
      then have "(2::real) powi (q + 53) \<le> 2 powi \<lfloor>log 2 \<bar>v\<bar>\<rfloor>"
        by (intro power_int_increasing) simp_all
      with pl show False by linarith
    qed
    then have "e \<le> q + 52" using q by (simp add: e_def binade_def)
    then have j: "0 \<le> q + 52 - e" by simp
    have "v / u = of_int n * (2 powi q / 2 powi (e - 52))"
      by (simp add: v u_def)
    also have "(2::real) powi q / 2 powi (e - 52) = 2 powi (q + 52 - e)"
      by (simp add: power_int_diff power_int_add field_simps)
    also have "\<dots> = of_int (2 ^ nat (q + 52 - e))" using j by (rule powi_nonneg_int)
    finally have "v / u = of_int (n * 2 ^ nat (q + 52 - e))" by simp
    then show ?thesis by blast
  qed
  then obtain k :: int where k: "v / u = of_int k" by blast
  then have "of_int (rne (v / u)) * u = v" using u0 by (simp add: field_simps)
  then have "of_int (rne (v / 2 powi (binade v - 52))) * 2 powi (binade v - 52) = v"
    by (simp only: u_def e_def)
  then show ?thesis
    unfolding rnd_def Let_def using \<open>v \<noteq> 0\<close> fin by simp
qed


lemma rnd_form:
  assumes "rnd x = Fin v"
  shows "\<exists>n q. \<bar>n\<bar> \<le> 2 ^ 53 \<and> - 1074 \<le> q \<and> v = of_int n * 2 powi q \<and>
               \<bar>v\<bar> < overflow_threshold"
proof (cases "x = 0")
  case True
  with assms have "v = 0" by (simp add: rnd_def)
  then have "\<bar>0::int\<bar> \<le> 2 ^ 53 \<and> - 1074 \<le> (0::int) \<and> v = of_int 0 * 2 powi 0 \<and>
             \<bar>v\<bar> < overflow_threshold"
    by (simp add: overflow_threshold_def)
  then show ?thesis by blast
next
  case False
  define e where "e = binade x"
  define u :: real where "u = 2 powi (e - 52)"
  define n where "n = rne (x / u)"
  have u0: "0 < u" by (simp add: u_def)
  have e: "- 1022 \<le> e" "\<lfloor>log 2 \<bar>x\<bar>\<rfloor> \<le> e" by (simp_all add: e_def binade_def)
  from assms False have v: "v = of_int n * u" and fin: "\<bar>v\<bar> < overflow_threshold"
    by (simp_all add: rnd_def Let_def n_def u_def e_def split: if_splits)
  have "\<bar>x\<bar> < 2 powi (\<lfloor>log 2 \<bar>x\<bar>\<rfloor> + 1)"
    using False by (intro floor_log2_bounds) simp
  also have "\<dots> \<le> 2 powi (e + 1)"
    using e(2) by (intro power_int_increasing) simp_all
  finally have "\<bar>x\<bar> / u < 2 powi (e + 1) / u"
    using u0 by (simp add: divide_strict_right_mono)
  also have "2 powi (e + 1) / u = 2 powi 53"
    by (simp add: u_def power_int_diff power_int_add)
  finally have xu: "\<bar>x / u\<bar> < 2 ^ 53" using u0 by simp
  have "\<bar>x / u - of_int n\<bar> \<le> 1 / 2" unfolding n_def by (rule rne_close)
  with xu have "\<bar>of_int n :: real\<bar> < 2 ^ 53 + 1" by linarith
  then have "\<bar>n\<bar> < 2 ^ 53 + 1"
    by (metis (mono_tags, opaque_lifting) of_int_1 of_int_abs of_int_add of_int_less_iff
        of_int_numeral of_int_power)
  then have "\<bar>n\<bar> \<le> 2 ^ 53" by linarith
  moreover have "- 1074 \<le> e - 52" using e(1) by simp
  moreover have "v = of_int n * 2 powi (e - 52)" by (simp add: v u_def)
  ultimately show ?thesis using fin by blast
qed

lemma rnd_idem: "rnd x = Fin v \<Longrightarrow> rnd v = Fin v"
  using rnd_form [of x v] representable by blast

lemma is_b64_rnd: "is_b64 (rnd x)"
  by (cases "rnd x") (simp_all add: is_b64_def rnd_idem)

lemma is_b64_js_mul: "is_b64 (js_mul x y)"
  by (cases x; cases y) (simp_all add: is_b64_rnd, simp_all add: is_b64_def)

lemma is_b64_js_add: "is_b64 (js_add x y)"
  by (cases x; cases y) (simp_all add: is_b64_rnd, simp_all add: is_b64_def)

lemma rnd_of_int:
  assumes "\<bar>k\<bar> \<le> 2 ^ 53"
  shows "rnd (of_int k) = Fin (of_int k)"
proof (rule representable [of k 0])
  have "\<bar>of_int k :: real\<bar> \<le> 2 ^ 53"
    using assms by (metis of_int_abs of_int_le_iff of_int_numeral of_int_power)
  also have "(2::real) ^ 53 < 2 ^ 1024" by (intro power_strict_increasing) simp_all
  finally show "\<bar>of_int k :: real\<bar> < overflow_threshold" by (simp only: overflow_threshold_def)
qed (use assms in simp_all)

lemma is_b64_small_int:
  "is_b64 (Fin 1)" "is_b64 (Fin 20)" "is_b64 (Fin 25)" "is_b64 (Fin 30)"
  using rnd_of_int [of 1] rnd_of_int [of 20] rnd_of_int [of 25] rnd_of_int [of 30]
  by (simp_all add: is_b64_def)

lemma js_mul_one: "is_b64 x \<Longrightarrow> js_mul x (Fin 1) = x"
  by (cases x) (simp_all add: is_b64_def)


lemma rnd_eval_small:
  assumes "2 powi e \<le> \<bar>x\<bar>" "\<bar>x\<bar> < 2 powi (e + 1)" "e \<le> 1000"
    and u: "u = 2 powi (max (- 1022) e - 52)"
    and n: "\<bar>x / u - of_int n\<bar> < 1 / 2"
  shows "rnd x = Fin (of_int n * u)"
proof (rule rnd_eval [OF assms(1,2) u n])
  have u0: "0 < u" by (simp add: u)
  have "\<bar>of_int n * u\<bar> = \<bar>of_int n\<bar> * u" using u0 by (simp add: abs_mult)
  also have "\<bar>of_int n :: real\<bar> \<le> \<bar>x / u\<bar> + 1 / 2" using n by linarith
  also have "(\<bar>x / u\<bar> + 1 / 2) * u = \<bar>x\<bar> + u / 2" using u0 by (simp add: field_simps)
  finally have 1: "\<bar>of_int n * u\<bar> \<le> \<bar>x\<bar> + u / 2" using u0 by simp
  have "(2::real) powi (e + 1) \<le> 2 powi 1001"
    using assms(3) by (intro power_int_increasing) simp_all
  moreover have "u \<le> 2 powi 1001"
    unfolding u using assms(3) by (intro power_int_increasing) simp_all
  ultimately have "\<bar>x\<bar> + u / 2 < 2 powi 1001 + 2 powi 1001 / 2"
    using assms(2) by linarith
  also have "\<dots> \<le> 2 * 2 powi 1001" by simp
  also have "\<dots> = (2::real) ^ 1002" by simp
  also have "\<dots> < (2::real) ^ 1024" by (intro power_strict_increasing) simp_all
  finally show "\<bar>of_int n * u\<bar> < overflow_threshold"
    using 1 by (simp only: overflow_threshold_def)
qed

lemma rnd_25: "rnd 25 = Fin 25" and rnd_50: "rnd 50 = Fin 50" and rnd_75: "rnd 75 = Fin 75"
  using rnd_of_int [of 25] rnd_of_int [of 50] rnd_of_int [of 75] by simp_all

lemma rnd_1_2: "rnd (6 / 5) = Fin (5404319552844595 / 2 ^ 52)"
  using rnd_eval_small [of 0 "6 / 5" "2 powi (- 52)" 5404319552844595]
  by simp

lemma rnd_1_15: "rnd (23 / 20) = Fin (5179139571476070 / 2 ^ 52)"
  using rnd_eval_small [of 0 "23 / 20" "2 powi (- 52)" 5179139571476070]
  by simp

lemma fifty_times_1_15:
  "rnd (50 * (5179139571476070 / 2 ^ 52)) = Fin (8092405580431359 / 2 ^ 47)"
  using rnd_eval_small [of 5 "50 * (5179139571476070 / 2 ^ 52)" "2 powi (- 47)" 8092405580431359]
  by simp

section \<open>Evaluating the parser\<close>

lemmas parse_defs =
  parseFloat_def is_digit_def is_space_def digits_val_def digit_val_def scale10_def

lemma rnd_half: "rnd (1 / 2) = Fin (1 / 2)"
  using representable [of 1 "- 1" "1 / 2"] by (simp add: overflow_threshold_def)

lemma rnd_500: "rnd 500 = Fin 500" and rnd_neg_3: "rnd (- 3) = Fin (- 3)"
  using rnd_of_int [of 500] rnd_of_int [of "- 3"] by simp_all

lemma rnd_0_05: "rnd (1 / 20) = Fin (7205759403792794 / 2 ^ 57)"
  using rnd_eval_small [of "- 5" "1 / 20" "2 powi (- 57)" 7205759403792794]
  by simp

lemma parseFloat_empty: "parseFloat [] = NaN"
  by (simp add: parse_defs)

lemma parseFloat_half: "parseFloat ''0.5'' = Fin (1 / 2)"
  by (simp add: parse_defs rnd_half)

lemma parseFloat_500: "parseFloat ''500'' = Fin 500"
  by (simp add: parse_defs rnd_500)


lemma parseFloat_0_05: "parseFloat ''0.05'' = Fin (7205759403792794 / 2 ^ 57)"
  by (simp add: parse_defs rnd_0_05)

lemma parseFloat_point: "parseFloat ''.'' = NaN"
  by (simp add: parse_defs)


section \<open>The price against the specification's formula\<close>

lemma spec_base_b64_eq:
  "(if js_lt d (Fin 0.5) then Fin 20
    else if js_lt d (Fin 1.0) then Fin 25
    else if js_lt d (Fin 2.0) then Fin 30
    else js_add (Fin 25) (js_mul (Fin 4) d)) = spec_base_b64 d"
  by (cases d) (auto simp: spec_base_b64_def)

lemma is_b64_spec_base: "is_b64 (spec_base_b64 d)"
  by (simp add: spec_base_b64_def is_b64_small_int is_b64_js_add)

lemma weight_condition_default:
  "js_ge (js_or w (Fin (1 / 2))) (Fin 2) \<and> js_le (js_or w (Fin (1 / 2))) (Fin 5) \<longleftrightarrow>
   js_le (Fin 2) w \<and> js_le w (Fin 5)"
  by (cases w) (simp_all add: js_or_def js_ge_def)

text \<open>
  Claim C1, amended.  For every distance, weight and timing the computed price is
  \<^verbatim>\<open>Math.round\<close> of the product of the base fare, the weight multiplier and the timing
  multiplier, where the base fare and the two multipliers are those of the
  specification, the weight multiplier is applied first and the timing multiplier
  second, each product is rounded to binary64, and the only rounding to an integer
  is the last step.  The distance may be any number, \<^verbatim>\<open>NaN\<close> and the infinities
  included; the weight is the reading of the weight field, and the default of 0.5 kg
  that replaces a falsy reading does not change the multiplier.
\<close>

theorem price_b64_formula:
  "price_b64 d (js_or w (Fin 0.5)) t = spec_price_b64 d w t"
proof -
  define b where "b = spec_base_b64 d"
  have b: "is_b64 b" unfolding b_def by (rule is_b64_spec_base)
  define b' where "b' = js_mul b (spec_weight_multiplier_b64 w)"
  have b': "is_b64 b'" unfolding b'_def by (rule is_b64_js_mul)
  have w: "(if js_ge (js_or w (Fin (1 / 2))) (Fin 2) \<and> js_le (js_or w (Fin (1 / 2))) (Fin 5)
            then js_mul b (rnd 1.2) else b) = b'"
    unfolding weight_condition_default b'_def spec_weight_multiplier_b64_def
    using js_mul_one [OF b] by simp
  have t: "(if t = asap then js_mul b' (rnd 1.15) else b') =
           js_mul b' (spec_timing_multiplier_b64 t)"
    unfolding spec_timing_multiplier_b64_def using js_mul_one [OF b'] by simp
  have "price_b64 d (js_or w (Fin (1 / 2))) t = Math_round_js (js_mul b' (spec_timing_multiplier_b64 t))"
    unfolding price_b64_def Let_def spec_base_b64_eq
    by (simp only: w t flip: b_def)
  then show ?thesis by (simp add: spec_price_b64_def b'_def b_def)
qed

text \<open>The binary64 products that occur at 6.25 km and at 12.5 km.\<close>

lemma rnd_90: "rnd (75 * (5404319552844595 / 2 ^ 52)) = Fin 90"
  using rnd_eval_small [of 6 "75 * (5404319552844595 / 2 ^ 52)" "2 powi (- 46)" 6333186975989760]
  by simp

lemma rnd_90_times_1_15:
  "rnd (90 * (5179139571476070 / 2 ^ 52)) = Fin (7283165022388223 / 2 ^ 46)"
  using rnd_eval_small [of 6 "90 * (5179139571476070 / 2 ^ 52)" "2 powi (- 46)" 7283165022388223]
  by simp

lemma rnd_75_times_1_15:
  "rnd (75 * (5179139571476070 / 2 ^ 52)) = Fin (345 / 4)"
  using rnd_eval_small [of 6 "75 * (5179139571476070 / 2 ^ 52)" "2 powi (- 46)" 6069304185323520]
  by simp

lemma rnd_86_25_times_1_2:
  "rnd (345 / 4 * (5404319552844595 / 2 ^ 52)) = Fin (207 / 2)"
  using rnd_eval_small [of 6 "345 / 4 * (5404319552844595 / 2 ^ 52)" "2 powi (- 46)" 7283165022388224]
  by simp

lemma price_b64_at_6_25: "price_b64 (Fin 6.25) (Fin 0.5) asap = Fin 57"
proof -
  have "js_add (Fin 25) (js_mul (Fin 4) (Fin 6.25)) = Fin 50"
    by (simp add: rnd_25 rnd_50)
  moreover have "js_mul (Fin 50) (rnd 1.15) = Fin (8092405580431359 / 2 ^ 47)"
    using fifty_times_1_15 by (simp add: rnd_1_15)
  ultimately show ?thesis
    by (simp add: price_b64_def js_ge_def)
qed

lemma price_b64_at_12_5: "price_b64 (Fin 12.5) (Fin 3) asap = Fin 103"
proof -
  have "js_add (Fin 25) (js_mul (Fin 4) (Fin 12.5)) = Fin 75"
    by (simp add: rnd_50 rnd_75)
  moreover have "js_mul (Fin 75) (rnd 1.2) = Fin 90"
    using rnd_90 by (simp add: rnd_1_2)
  moreover have "js_mul (Fin 90) (rnd 1.15) = Fin (7283165022388223 / 2 ^ 46)"
    using rnd_90_times_1_15 by (simp add: rnd_1_15)
  ultimately show ?thesis
    by (simp add: price_b64_def js_ge_def)
qed

lemma timing_first_at_12_5:
  "Math_round_js (js_mul (js_mul (Fin 75) (rnd 1.15)) (rnd 1.2)) = Fin 104"
proof -
  have "js_mul (Fin 75) (rnd 1.15) = Fin (345 / 4)"
    using rnd_75_times_1_15 by (simp add: rnd_1_15)
  moreover have "js_mul (Fin (345 / 4)) (rnd 1.2) = Fin (207 / 2)"
    using rnd_86_25_times_1_2 by (simp add: rnd_1_2)
  ultimately show ?thesis by simp
qed

lemma spec_price_at_6_25: "spec_price 6.25 (Fin 0.5) asap = 58"
  by (simp add: spec_price_def spec_base_def spec_weight_multiplier_def
        spec_timing_multiplier_def round_def)

text \<open>
  The claim as stated, with the product taken exactly, fails at 6.25 km with a light
  parcel and asap timing: the base fare is 50, the binary64 product with 1.15 lies just
  below 57.5 and the price is 57, while \<open>round (50 * 1.15) = 58\<close>.
\<close>

theorem price_differs_from_exact_formula:
  "price_b64 (Fin 6.25) (Fin 0.5) asap = Fin 57 \<and> spec_price 6.25 (Fin 0.5) asap = 58"
  using price_b64_at_6_25 spec_price_at_6_25 by simp

text \<open>A distance that is not a number gives a price that is not a number.\<close>

lemma price_b64_NaN: "price_b64 NaN w t = NaN"
  by (simp add: price_b64_def)

text \<open>
  The order of the two multipliers is observable: at 12.5 km with a parcel of 3 kg and
  asap timing the price is 103, and it would be 104 with the timing multiplier first.
\<close>

lemma multiplier_order_matters:
  "price_b64 (Fin 12.5) (Fin 3) asap = Fin 103 \<and>
   Math_round_js (js_mul (js_mul (js_add (Fin 25) (js_mul (Fin 4) (Fin 12.5))) (rnd 1.15))
     (rnd 1.2)) = Fin 104"
proof -
  have "js_add (Fin 25) (js_mul (Fin 4) (Fin 12.5)) = Fin 75"
    by (simp add: rnd_50 rnd_75)
  with price_b64_at_12_5 timing_first_at_12_5 show ?thesis by simp
qed

text \<open>
  Claim C4.  At the tier boundaries the upper tier applies: a distance of exactly 0.5 km
  has base 25, exactly 1.0 km has base 30, and exactly 2.0 km takes the formula,
  \<open>25 + 4 * 2 = 33\<close>.  With a light parcel and a timing other than asap these are
  also the final prices.
\<close>

theorem base_price_boundaries:
  "base_price 0.5 = 25 \<and> base_price 1.0 = 30 \<and>
   base_price 2.0 = 25 + 4 * 2 \<and> base_price 2.0 = 33 \<and>
   price_of 0.5 (Fin 0.5) within_2h = 25 \<and>
   price_of 1.0 (Fin 0.5) within_2h = 30 \<and>
   price_of 2.0 (Fin 0.5) within_2h = 33"
  by (simp add: base_price_def price_of_def apply_weight_def apply_timing_def
        Math_round_def js_ge_def)

section \<open>The default weight\<close>






section \<open>Symmetry of the distance\<close>

lemma haversine_a_swap: "haversine_a (swap_endpoints s) = haversine_a s"
proof -
  have m: "(dropoffLat s - pickupLat s) * pi / 180 / 2 =
           - ((pickupLat s - dropoffLat s) * pi / 180 / 2)"
    by (simp add: field_simps)
  have n: "(dropoffLng s - pickupLng s) * pi / 180 / 2 =
           - ((pickupLng s - dropoffLng s) * pi / 180 / 2)"
    by (simp add: field_simps)
  show ?thesis
    unfolding haversine_a_def swap_endpoints_def Let_def
    by (simp only: m n sin_minus) (simp add: mult.commute)
qed

text \<open>
  Claim C10.  Exchanging pickup and drop-off changes neither the distance nor, at the
  same weight and timing, the price.
\<close>

theorem distance_and_price_symmetric:
  "calculateDistance (swap_endpoints s) = calculateDistance s \<and>
   calculatePrice (swap_endpoints s) = calculatePrice s"
proof -
  have d: "calculateDistance (swap_endpoints s) = calculateDistance s"
    by (simp add: calculateDistance_def haversine_a_swap)
  have "weight (swap_endpoints s) = weight s" "timing (swap_endpoints s) = timing s"
    by (simp_all add: swap_endpoints_def)
  with d show ?thesis by (simp add: calculatePrice_def weightNum_def)
qed

section \<open>Validation of the parcel details\<close>

text \<open>
  What the second step checks: the form advances exactly when the weight field is not
  empty and its reading is neither at most 0 nor above 5, the declared value is not
  empty and its reading is not at most 0, and there is a photo.  On readings that are
  finite numbers, and with the at most three photos that the screen lets a sender
  attach, this is the rule of the specification.  An alert leaves the form as it was,
  and only the footer button on the fourth step posts a delivery.
\<close>

lemma handleNextStep_details_pass_iff:
  assumes "step s = 2"
  shows "fst (handleNextStep s) = None \<longleftrightarrow>
           weight s \<noteq> [] \<and> \<not> js_le (parseFloat (weight s)) (Fin 0) \<and>
           \<not> js_gt (parseFloat (weight s)) (Fin 5) \<and>
           declaredValue s \<noteq> [] \<and> \<not> js_le (parseFloat (declaredValue s)) (Fin 0) \<and>
           photos s \<noteq> []"
  using assms by (auto simp: handleNextStep_def)

lemma handleNextStep_numeric_weight:
  assumes "step s = 2" "parseFloat (weight s) = Fin w"
    "parseFloat (declaredValue s) = Fin v" "length (photos s) \<le> 3"
  shows "fst (handleNextStep s) \<noteq> None \<longleftrightarrow>
           \<not> (0 < w \<and> w \<le> 5) \<or> \<not> 0 < v \<or> \<not> (1 \<le> length (photos s) \<and> length (photos s) \<le> 3)"
proof -
  have "weight s \<noteq> []" "declaredValue s \<noteq> []"
    using assms(2,3) by (auto simp: parseFloat_empty)
  then show ?thesis
    using assms by (auto simp: handleNextStep_def js_gt_def Suc_le_eq)
qed

lemma handleNextStep_alert_or_advance:
  "fst (handleNextStep s) = None \<or> snd (handleNextStep s) = s"
  by (simp add: handleNextStep_def)

lemma handleNextStep_alert_keeps_state:
  "fst (handleNextStep s) \<noteq> None \<Longrightarrow> snd (handleNextStep s) = s"
  using handleNextStep_alert_or_advance [of s] by auto

lemma handleNextStep_photos: "photos (snd (handleNextStep s)) = photos s"
  by (simp add: handleNextStep_def)

lemma fire_PressNext_photos: "photos (snd (fire PressNext s)) = photos s"
  using handleNextStep_photos [of s]
  by (cases "handleNextStep s"; cases "fst (handleNextStep s)") simp_all

lemma fire_photos_le_3:
  assumes "length (photos s) \<le> 3"
  shows "length (photos (snd (fire e s))) \<le> 3"
proof (cases e)
  case PressNext
  then show ?thesis using assms by (simp only: fire_PressNext_photos)
next
  case (PickImage img)
  then show ?thesis using assms by simp
next
  case (RemovePhoto i)
  then show ?thesis using assms by auto
qed (use assms in simp_all)

lemma run_photos_le_3:
  "length (photos s) \<le> 3 \<Longrightarrow> length (photos (snd (run es s))) \<le> 3"
proof (induction es arbitrary: s)
  case Nil
  then show ?case by simp
next
  case (Cons e es)
  from Cons.prems have "length (photos (snd (fire e s))) \<le> 3" by (rule fire_photos_le_3)
  then have "length (photos (snd (run es (snd (fire e s))))) \<le> 3" by (rule Cons.IH)
  then show ?case by (simp add: split_beta)
qed

lemma fire_PressNext_post:
  "PostDelivery d \<in> set (fst (fire PressNext s)) \<Longrightarrow> step s = 4 \<and> d = handleSubmit s"
  by (cases "handleNextStep s"; cases "fst (handleNextStep s)") (simp_all split: if_splits)

lemma post_only_on_review_step:
  assumes "PostDelivery d \<in> set (fst (fire e s))"
  shows "e = PressNext \<and> step s = 4 \<and> d = handleSubmit s"
proof (cases e)
  case PressNext
  with assms fire_PressNext_post [of d s] show ?thesis by simp
qed (use assms in simp_all)

text \<open>
  Claim C7.  The claim is that no weight below 0.1 kg passes the validation, as the
  alert of the weight check says.  The check itself compares with zero: a sender who
  types 0.05 is let through to the timing step without an alert.
\<close>

theorem weight_below_minimum_accepted:
  "run (fill_parcel ''0.05'') initial_state = ([], filled_form ''0.05''\<lparr>step := 3\<rparr>) \<and>
   handleNextStep (filled_form ''0.05''\<lparr>step := 2\<rparr>) = (None, filled_form ''0.05''\<lparr>step := 3\<rparr>) \<and>
   js_lt (parseFloat ''0.05'') (Fin 0.1)"
  by (simp add: fill_parcel_def filled_form_def handleNextStep_def initial_state_def
        parseFloat_0_05 parseFloat_500 is_space_def js_gt_def js_trim_def)

text \<open>
  Claim C3.  The claim is that the validation fails exactly when the weight is outside
  \<open>(0, 5]\<close>, the declared value is not positive or the photos are not one to three.
  A weight field that holds text without a number, here a lone decimal point, is not
  empty and reads as \<^verbatim>\<open>NaN\<close>, for which both comparisons of the weight check are
  false: no alert is shown, the form advances, and the request is posted with a
  weight that is not a number.
\<close>

theorem non_numeric_weight_submitted:
  "fst (run (fill_parcel ''.'' @ [SelectTiming within_2h, PressNext, PressNext]) initial_state) =
     [PostDelivery (handleSubmit (filled_form ''.''\<lparr>timing := within_2h\<rparr>))] \<and>
   weight_kg (handleSubmit (filled_form ''.''\<lparr>timing := within_2h\<rparr>)) = NaN \<and>
   handleNextStep (filled_form ''.''\<lparr>step := 2\<rparr>) = (None, filled_form ''.''\<lparr>step := 3\<rparr>)"
  by (simp add: fill_parcel_def filled_form_def handleNextStep_def handleSubmit_def
        initial_state_def parseFloat_point parseFloat_500 is_space_def js_gt_def js_trim_def)

section \<open>The distance as a haversine, without failure\<close>

lemma cos_product_half_angles:
  fixes A B :: real
  shows "cos (B - A) * cos (B + A) = (cos B)\<^sup>2 - (sin A)\<^sup>2"
proof -
  have "cos (B - A) * cos (B + A) = (cos B)\<^sup>2 * (cos A)\<^sup>2 - (sin B)\<^sup>2 * (sin A)\<^sup>2"
    by (simp add: cos_add cos_diff power2_eq_square algebra_simps)
  also have "\<dots> = (cos B)\<^sup>2 * (1 - (sin A)\<^sup>2) - (1 - (cos B)\<^sup>2) * (sin A)\<^sup>2"
    by (simp only: cos_squared_eq [of A] sin_squared_eq [of B])
  also have "\<dots> = (cos B)\<^sup>2 - (sin A)\<^sup>2"
    by (simp add: algebra_simps)
  finally show ?thesis .
qed

lemma convex_unit:
  fixes x y t :: real
  assumes "0 \<le> x" "x \<le> 1" "0 \<le> y" "y \<le> 1" "0 \<le> t" "t \<le> 1"
  shows "0 \<le> x * (1 - t) + y * t" and "x * (1 - t) + y * t \<le> 1"
proof -
  show "0 \<le> x * (1 - t) + y * t" using assms by simp
  have "x * (1 - t) \<le> 1 * (1 - t)" using assms by (intro mult_right_mono) simp_all
  moreover have "y * t \<le> 1 * t" using assms by (intro mult_right_mono) simp_all
  ultimately show "x * (1 - t) + y * t \<le> 1" by simp
qed

lemma haversine_a_convex:
  "haversine_a s =
     (sin ((dropoffLat s - pickupLat s) * pi / 180 / 2))\<^sup>2 *
       (1 - (sin ((dropoffLng s - pickupLng s) * pi / 180 / 2))\<^sup>2) +
     (cos ((dropoffLat s + pickupLat s) * pi / 180 / 2))\<^sup>2 *
       (sin ((dropoffLng s - pickupLng s) * pi / 180 / 2))\<^sup>2"
proof -
  define A where "A = (dropoffLat s - pickupLat s) * pi / 180 / 2"
  define B where "B = (dropoffLat s + pickupLat s) * pi / 180 / 2"
  define t where "t = (sin ((dropoffLng s - pickupLng s) * pi / 180 / 2))\<^sup>2"
  have p: "pickupLat s * pi / 180 = B - A" and q: "dropoffLat s * pi / 180 = B + A"
    by (simp_all add: A_def B_def field_simps)
  have "haversine_a s = (sin A)\<^sup>2 + cos (B - A) * cos (B + A) * t"
    unfolding haversine_a_def Let_def p q
    by (simp add: A_def t_def power2_eq_square)
  also have "\<dots> = (sin A)\<^sup>2 + ((cos B)\<^sup>2 - (sin A)\<^sup>2) * t"
    by (simp only: cos_product_half_angles)
  also have "\<dots> = (sin A)\<^sup>2 * (1 - t) + (cos B)\<^sup>2 * t"
    by (simp add: algebra_simps)
  finally show ?thesis by (simp add: A_def B_def t_def)
qed

lemma haversine_a_range: "0 \<le> haversine_a s" "haversine_a s \<le> 1"
proof -
  have sq: "0 \<le> (sin x)\<^sup>2" "(sin x)\<^sup>2 \<le> 1" "0 \<le> (cos x)\<^sup>2" "(cos x)\<^sup>2 \<le> 1"
    for x :: real
    using sin_cos_squared_add [of x] zero_le_power2 [of "sin x"] zero_le_power2 [of "cos x"]
    by linarith+
  show "0 \<le> haversine_a s" "haversine_a s \<le> 1"
    unfolding haversine_a_convex
    by (rule convex_unit sq)+
qed

lemma atan2_arcsin:
  assumes "0 \<le> a" "a \<le> 1"
  shows "Math_atan2 (sqrt a) (sqrt (1 - a)) = arcsin (sqrt a)"
proof (cases "a = 1")
  case True
  then show ?thesis by (simp add: Math_atan2_def)
next
  case False
  with assms have lt: "a < 1" by simp
  then have pos: "0 < sqrt (1 - a)" by simp
  have "sqrt a < 1" using assms lt by (simp add: real_sqrt_lt_1_iff)
  moreover have "- 1 < sqrt a" using assms by (smt (verit) real_sqrt_ge_zero)
  ultimately have "arcsin (sqrt a) = arctan (sqrt a / sqrt (1 - (sqrt a)\<^sup>2))"
    by (rule arcsin_arctan [rotated])
  also have "(sqrt a)\<^sup>2 = a" using assms by simp
  finally show ?thesis using pos by (simp add: Math_atan2_def)
qed

lemma calculateDistance_arcsin:
  "calculateDistance s = 6371 * (2 * arcsin (sqrt (haversine_a s)))"
  by (simp add: calculateDistance_def atan2_arcsin haversine_a_range)






section \<open>Numeric bounds\<close>

lemma cos_taylor_bound:
  fixes x :: real
  shows "\<bar>cos x - (\<Sum>m<n. cos_coeff m * x ^ m)\<bar> \<le> \<bar>x\<bar> ^ n / fact n"
proof -
  obtain t where
    "cos x = (\<Sum>m<n. cos_coeff m * x ^ m) + (cos (t + 1 / 2 * real n * pi) / fact n) * x ^ n"
    using Maclaurin_cos_expansion [of x n] by blast
  then have "\<bar>cos x - (\<Sum>m<n. cos_coeff m * x ^ m)\<bar> =
             \<bar>cos (t + 1 / 2 * real n * pi)\<bar> * (\<bar>x\<bar> ^ n / fact n)"
    by (simp add: abs_mult power_abs)
  also have "\<dots> \<le> 1 * (\<bar>x\<bar> ^ n / fact n)"
    by (intro mult_right_mono) simp_all
  finally show ?thesis by simp
qed

lemma sum_lessThan_6: "(\<Sum>m<6. f m) = f 0 + f 1 + f 2 + f 3 + f 4 + (f 5 :: real)" for f :: "nat \<Rightarrow> real"
  by (simp add: numeral_eq_Suc)

lemma sum_lessThan_14:
  "(\<Sum>m<14. f m) = f 0 + f 1 + f 2 + f 3 + f 4 + f 5 + f 6 + f 7 + f 8 + f 9 + f 10 + f 11 +
      f 12 + (f 13 :: real)" for f :: "nat \<Rightarrow> real"
  by (simp add: numeral_eq_Suc)

lemma cos_coeff_values:
  "cos_coeff (Suc 0) = 0" "cos_coeff 2 = - 1 / 2" "cos_coeff 3 = 0" "cos_coeff 4 = 1 / 24"
  "cos_coeff 5 = 0" "cos_coeff 6 = - 1 / 720" "cos_coeff 7 = 0" "cos_coeff 8 = 1 / 40320"
  "cos_coeff 9 = 0" "cos_coeff 10 = - 1 / 3628800" "cos_coeff 11 = 0"
  "cos_coeff 12 = 1 / 479001600" "cos_coeff 13 = 0"
  by (simp_all add: cos_coeff_def fact_numeral)

lemma cos_poly_14:
  fixes x :: real
  shows "(\<Sum>m<14. cos_coeff m * x ^ m) =
     1 - x^2 / 2 + x^4 / 24 - x^6 / 720 + x^8 / 40320 - x^10 / 3628800 + x^12 / 479001600"
  by (simp add: sum_lessThan_14 cos_coeff_values)

lemma cos_poly_6:
  fixes x :: real
  shows "(\<Sum>m<6. cos_coeff m * x ^ m) = 1 - x^2 / 2 + x^4 / 24"
  by (simp add: sum_lessThan_6 cos_coeff_values)

lemma sin_poly_3:
  fixes x :: real
  shows "(\<Sum>m<3. sin_coeff m * x ^ m) = x"
  by (simp add: sin_coeff_def numeral_eq_Suc)

lemma cos_pos_less_pi_half:
  assumes "0 \<le> x" "x \<le> 2" "0 < cos x"
  shows "x < pi / 2"
proof (rule ccontr)
  assume "\<not> x < pi / 2"
  then have "pi / 2 \<le> x" by simp
  moreover have "x \<le> pi" using assms(2) pi_ge_two by linarith
  ultimately have "cos x \<le> cos (pi / 2)"
    by (intro cos_monotone_0_pi_le) simp_all
  with assms(3) show False by simp
qed

lemma cos_neg_greater_pi_half:
  assumes "0 \<le> x" "cos x < 0"
  shows "pi / 2 < x"
proof (rule ccontr)
  assume "\<not> pi / 2 < x"
  then have "x \<le> pi / 2" by simp
  with assms(1) have "0 \<le> cos x" by (intro cos_ge_zero) simp_all
  with assms(2) show False by simp
qed

lemma pi_lower: "3.14159 < pi"
proof -
  let ?x = "1570795 / 1000000 :: real"
  have "\<bar>cos ?x - (\<Sum>m<14. cos_coeff m * ?x ^ m)\<bar> \<le> \<bar>?x\<bar> ^ 14 / fact 14"
    by (rule cos_taylor_bound)
  then have "(\<Sum>m<14. cos_coeff m * ?x ^ m) - \<bar>?x\<bar> ^ 14 / fact 14 \<le> cos ?x"
    by linarith
  moreover have "0 < (\<Sum>m<14. cos_coeff m * ?x ^ m) - \<bar>?x\<bar> ^ 14 / fact 14"
    unfolding cos_poly_14 by (simp add: fact_numeral power_divide)
  ultimately have "0 < cos ?x" by linarith
  then have "?x < pi / 2" by (intro cos_pos_less_pi_half) simp_all
  then show ?thesis by simp
qed

lemma pi_upper: "pi < 3.1416"
proof -
  let ?x = "15708 / 10000 :: real"
  have "\<bar>cos ?x - (\<Sum>m<14. cos_coeff m * ?x ^ m)\<bar> \<le> \<bar>?x\<bar> ^ 14 / fact 14"
    by (rule cos_taylor_bound)
  then have "cos ?x \<le> (\<Sum>m<14. cos_coeff m * ?x ^ m) + \<bar>?x\<bar> ^ 14 / fact 14"
    by linarith
  moreover have "(\<Sum>m<14. cos_coeff m * ?x ^ m) + \<bar>?x\<bar> ^ 14 / fact 14 < 0"
    unfolding cos_poly_14 by (simp add: fact_numeral power_divide)
  ultimately have "cos ?x < 0" by linarith
  then have "pi / 2 < ?x" by (intro cos_neg_greater_pi_half) simp_all
  then show ?thesis by simp
qed

lemma arctan_le_self:
  assumes "0 \<le> t"
  shows "arctan t \<le> t"
proof -
  have "0 - arctan 0 \<le> t - arctan t"
  proof (rule DERIV_nonneg_imp_nondecreasing [of 0 t "\<lambda>u. u - arctan u"])
    show "0 \<le> t" by (rule assms)
    fix u :: real
    assume "0 \<le> u" "u \<le> t"
    have "((\<lambda>u. u - arctan u) has_real_derivative 1 - inverse (1 + u\<^sup>2)) (at u)"
      by (auto intro!: derivative_eq_intros)
    moreover have "0 \<le> 1 - inverse (1 + u\<^sup>2)"
      by (simp add: inverse_le_1_iff)
    ultimately show "\<exists>y. ((\<lambda>u. u - arctan u) has_real_derivative y) (at u) \<and> 0 \<le> y"
      by blast
  qed
  then show ?thesis by simp
qed


lemma sin_lower_bound:
  fixes x :: real
  assumes "0 \<le> x"
  shows "x - x ^ 3 / 6 \<le> sin x"
proof -
  have "\<bar>sin x - (\<Sum>m<3. sin_coeff m * x ^ m)\<bar> \<le> inverse (fact 3) * \<bar>x\<bar> ^ 3"
    by (rule Maclaurin_sin_bound)
  moreover have "inverse (fact 3) * \<bar>x\<bar> ^ 3 = x ^ 3 / 6"
    using assms by (simp add: fact_numeral)
  ultimately show ?thesis unfolding sin_poly_3 by linarith
qed

lemma cos_bounds_order_6:
  fixes x lo hi :: real
  assumes "0 \<le> lo" "lo \<le> x" "x \<le> hi"
  shows "1 - hi\<^sup>2 / 2 + lo ^ 4 / 24 - hi ^ 6 / 720 \<le> cos x"
    and "cos x \<le> 1 - lo\<^sup>2 / 2 + hi ^ 4 / 24 + hi ^ 6 / 720"
proof -
  have x0: "0 \<le> x" using assms by linarith
  have "\<bar>cos x - (\<Sum>m<6. cos_coeff m * x ^ m)\<bar> \<le> \<bar>x\<bar> ^ 6 / fact 6"
    by (rule cos_taylor_bound)
  then have t: "\<bar>cos x - (1 - x\<^sup>2 / 2 + x ^ 4 / 24)\<bar> \<le> x ^ 6 / 720"
    using x0 by (simp add: cos_poly_6 fact_numeral)
  have p2: "lo\<^sup>2 \<le> x\<^sup>2" "x\<^sup>2 \<le> hi\<^sup>2" using assms x0 by (simp_all add: power_mono)
  have p4: "lo ^ 4 \<le> x ^ 4" "x ^ 4 \<le> hi ^ 4" using assms x0 by (simp_all add: power_mono)
  have p6: "x ^ 6 \<le> hi ^ 6" using assms x0 by (simp add: power_mono)
  show "1 - hi\<^sup>2 / 2 + lo ^ 4 / 24 - hi ^ 6 / 720 \<le> cos x"
    using t p2 p4 p6 by linarith
  show "cos x \<le> 1 - lo\<^sup>2 / 2 + hi ^ 4 / 24 + hi ^ 6 / 720"
    using t p2 p4 p6 by linarith
qed

lemma sin_sq_bounds:
  fixes x lo hi :: real
  assumes "0 \<le> lo" "lo \<le> x" "x \<le> hi" "0 \<le> lo - hi ^ 3 / 6"
  shows "(lo - hi ^ 3 / 6)\<^sup>2 \<le> (sin x)\<^sup>2" and "(sin x)\<^sup>2 \<le> hi\<^sup>2"
proof -
  have x0: "0 \<le> x" using assms by linarith
  have "x ^ 3 \<le> hi ^ 3" using assms x0 by (simp add: power_mono)
  then have lo: "lo - hi ^ 3 / 6 \<le> sin x"
    using sin_lower_bound [OF x0] assms by linarith
  have hi: "sin x \<le> hi" using sin_x_le_x [OF x0] assms by linarith
  have s0: "0 \<le> sin x" using lo assms(4) by linarith
  show "(lo - hi ^ 3 / 6)\<^sup>2 \<le> (sin x)\<^sup>2" using lo assms(4) by (rule power_mono)
  show "(sin x)\<^sup>2 \<le> hi\<^sup>2" using hi s0 by (rule power_mono)
qed

lemma worked_example_haversine_a:
  "4.6865 / 10 ^ 6 \<le> haversine_a worked_example"
  "haversine_a worked_example \<le> 4.68675 / 10 ^ 6"
proof -
  define u :: real where "u = 2077 * pi / 3600000"
  define v :: real where "v = 1407 * pi / 3600000"
  define l1 :: real where "l1 = 154909 * pi / 1800000"
  define l2 :: real where "l2 = 152832 * pi / 1800000"
  have e1: "(dropoffLat worked_example - pickupLat worked_example) * pi / 180 / 2 = - u"
    by (simp add: worked_example_def u_def)
  have e2: "(dropoffLng worked_example - pickupLng worked_example) * pi / 180 / 2 = v"
    by (simp add: worked_example_def v_def)
  have e3: "pickupLat worked_example * pi / 180 = l1"
    by (simp add: worked_example_def l1_def)
  have e4: "dropoffLat worked_example * pi / 180 = l2"
    by (simp add: worked_example_def l2_def)
  have a: "haversine_a worked_example = (sin u)\<^sup>2 + cos l1 * cos l2 * (sin v)\<^sup>2"
    unfolding haversine_a_def Let_def e1 e2 e3 e4
    by (simp add: power2_eq_square)
  have ub: "0.00181252 \<le> u" "u \<le> 0.00181253"
    using pi_lower pi_upper by (simp_all add: u_def)
  have vb: "0.00122783 \<le> v" "v \<le> 0.00122785"
    using pi_lower pi_upper by (simp_all add: v_def)
  have l1b: "0.270366 \<le> l1" "l1 \<le> 0.270368"
    using pi_lower pi_upper by (simp_all add: l1_def)
  have l2b: "0.266741 \<le> l2" "l2 \<le> 0.266743"
    using pi_lower pi_upper by (simp_all add: l2_def)
  have su: "(0.00181251 :: real)\<^sup>2 \<le> (sin u)\<^sup>2" "(sin u)\<^sup>2 \<le> (0.00181253 :: real)\<^sup>2"
  proof -
    have "(0.00181252 - 0.00181253 ^ 3 / 6 :: real)\<^sup>2 \<le> (sin u)\<^sup>2"
      by (rule sin_sq_bounds(1) [OF _ ub]) (simp_all add: power_divide)
    moreover have "(0.00181251 :: real)\<^sup>2 \<le> (0.00181252 - 0.00181253 ^ 3 / 6)\<^sup>2"
      by (rule power_mono) (simp_all add: power_divide)
    ultimately show "(0.00181251 :: real)\<^sup>2 \<le> (sin u)\<^sup>2" by linarith
    show "(sin u)\<^sup>2 \<le> (0.00181253 :: real)\<^sup>2"
      by (rule sin_sq_bounds(2) [OF _ ub]) (simp_all add: power_divide)
  qed
  have sv: "(0.00122782 :: real)\<^sup>2 \<le> (sin v)\<^sup>2" "(sin v)\<^sup>2 \<le> (0.00122785 :: real)\<^sup>2"
  proof -
    have "(0.00122783 - 0.00122785 ^ 3 / 6 :: real)\<^sup>2 \<le> (sin v)\<^sup>2"
      by (rule sin_sq_bounds(1) [OF _ vb]) (simp_all add: power_divide)
    moreover have "(0.00122782 :: real)\<^sup>2 \<le> (0.00122783 - 0.00122785 ^ 3 / 6)\<^sup>2"
      by (rule power_mono) (simp_all add: power_divide)
    ultimately show "(0.00122782 :: real)\<^sup>2 \<le> (sin v)\<^sup>2" by linarith
    show "(sin v)\<^sup>2 \<le> (0.00122785 :: real)\<^sup>2"
      by (rule sin_sq_bounds(2) [OF _ vb]) (simp_all add: power_divide)
  qed
  have c1: "0.963672 \<le> cos l1" "cos l1 \<le> 0.963675"
  proof -
    have "1 - (0.270368 :: real)\<^sup>2 / 2 + 0.270366 ^ 4 / 24 - 0.270368 ^ 6 / 720 \<le> cos l1"
      by (rule cos_bounds_order_6(1) [OF _ l1b]) simp
    moreover have "(0.963672 :: real) \<le> 1 - 0.270368\<^sup>2 / 2 + 0.270366 ^ 4 / 24 - 0.270368 ^ 6 / 720"
      by (simp add: power_divide)
    ultimately show "0.963672 \<le> cos l1" by linarith
    have "cos l1 \<le> 1 - (0.270366 :: real)\<^sup>2 / 2 + 0.270368 ^ 4 / 24 + 0.270368 ^ 6 / 720"
      by (rule cos_bounds_order_6(2) [OF _ l1b]) simp
    moreover have "1 - (0.270366 :: real)\<^sup>2 / 2 + 0.270368 ^ 4 / 24 + 0.270368 ^ 6 / 720 \<le> 0.963675"
      by (simp add: power_divide)
    ultimately show "cos l1 \<le> 0.963675" by linarith
  qed
  have c2: "0.964634 \<le> cos l2" "cos l2 \<le> 0.964637"
  proof -
    have "1 - (0.266743 :: real)\<^sup>2 / 2 + 0.266741 ^ 4 / 24 - 0.266743 ^ 6 / 720 \<le> cos l2"
      by (rule cos_bounds_order_6(1) [OF _ l2b]) simp
    moreover have "(0.964634 :: real) \<le> 1 - 0.266743\<^sup>2 / 2 + 0.266741 ^ 4 / 24 - 0.266743 ^ 6 / 720"
      by (simp add: power_divide)
    ultimately show "0.964634 \<le> cos l2" by linarith
    have "cos l2 \<le> 1 - (0.266741 :: real)\<^sup>2 / 2 + 0.266743 ^ 4 / 24 + 0.266743 ^ 6 / 720"
      by (rule cos_bounds_order_6(2) [OF _ l2b]) simp
    moreover have "1 - (0.266741 :: real)\<^sup>2 / 2 + 0.266743 ^ 4 / 24 + 0.266743 ^ 6 / 720 \<le> 0.964637"
      by (simp add: power_divide)
    ultimately show "cos l2 \<le> 0.964637" by linarith
  qed
  have p1: "0 \<le> cos l1" by (rule order_trans [OF _ c1(1)]) simp
  have p2: "0 \<le> cos l2" by (rule order_trans [OF _ c2(1)]) simp
  have cc_lo: "0.963672 * 0.964634 \<le> cos l1 * cos l2"
    by (rule mult_mono [OF c1(1) c2(1) p1]) simp
  have cc_hi: "cos l1 * cos l2 \<le> 0.963675 * 0.964637"
    by (rule mult_mono [OF c1(2) c2(2) _ p2]) simp
  have cc0: "0 \<le> cos l1 * cos l2"
    using p1 p2 by (rule mult_nonneg_nonneg)
  have t_lo: "0.963672 * 0.964634 * (0.00122782 :: real)\<^sup>2 \<le> cos l1 * cos l2 * (sin v)\<^sup>2"
    by (rule mult_mono [OF cc_lo sv(1) cc0]) simp
  have t_hi: "cos l1 * cos l2 * (sin v)\<^sup>2 \<le> 0.963675 * 0.964637 * (0.00122785 :: real)\<^sup>2"
    by (rule mult_mono [OF cc_hi sv(2)]) simp_all
  have n_lo: "(4.6865 / 10 ^ 6 :: real) \<le> 0.00181251\<^sup>2 + 0.963672 * 0.964634 * 0.00122782\<^sup>2"
    by (simp add: power_divide)
  have n_hi: "(0.00181253 :: real)\<^sup>2 + 0.963675 * 0.964637 * 0.00122785\<^sup>2 \<le> 4.68675 / 10 ^ 6"
    by (simp add: power_divide)
  show "4.6865 / 10 ^ 6 \<le> haversine_a worked_example"
    unfolding a using su(1) t_lo n_lo by linarith
  show "haversine_a worked_example \<le> 4.68675 / 10 ^ 6"
    unfolding a using su(2) t_hi n_hi by linarith
qed


section \<open>The worked example\<close>

lemma arcsin_sqrt_bounds:
  assumes "0 \<le> a" "a < 1"
  shows "sqrt a \<le> arcsin (sqrt a)" and "arcsin (sqrt a) \<le> sqrt a / sqrt (1 - a)"
proof -
  have r: "0 \<le> sqrt a" "sqrt a < 1" using assms by (simp_all add: real_sqrt_lt_1_iff)
  then have r': "- 1 < sqrt a" "- 1 \<le> sqrt a" "sqrt a \<le> 1" by linarith+
  have "arcsin 0 \<le> arcsin (sqrt a)" using r r' by (intro arcsin_le_arcsin) simp_all
  then have y0: "0 \<le> arcsin (sqrt a)" by simp
  have "sin (arcsin (sqrt a)) = sqrt a" using r'(2,3) by (rule sin_arcsin)
  then show "sqrt a \<le> arcsin (sqrt a)" using sin_x_le_x [OF y0] by simp
  have "arcsin (sqrt a) = arctan (sqrt a / sqrt (1 - (sqrt a)\<^sup>2))"
    using r'(1) r(2) by (rule arcsin_arctan)
  also have "(sqrt a)\<^sup>2 = a" using assms by simp
  finally have "arcsin (sqrt a) = arctan (sqrt a / sqrt (1 - a))" .
  moreover have "0 \<le> sqrt a / sqrt (1 - a)" using assms by simp
  ultimately show "arcsin (sqrt a) \<le> sqrt a / sqrt (1 - a)"
    using arctan_le_self by simp
qed

lemma worked_example_distance:
  "27.58 < calculateDistance worked_example" "calculateDistance worked_example < 27.59"
proof -
  define a where "a = haversine_a worked_example"
  have ab: "4.6865 / 10 ^ 6 \<le> a" "a \<le> 4.68675 / 10 ^ 6"
    unfolding a_def by (rule worked_example_haversine_a)+
  have a0: "0 \<le> a" "a < 1" using ab by simp_all
  have lo: "0.0021648 \<le> sqrt a"
  proof (rule real_le_rsqrt)
    have "(0.0021648 :: real)\<^sup>2 \<le> 4.6865 / 10 ^ 6" by (simp add: power_divide)
    with ab(1) show "(0.0021648 :: real)\<^sup>2 \<le> a" by linarith
  qed
  have hi: "sqrt a \<le> 0.0021649"
  proof (rule real_le_lsqrt)
    show "(0 :: real) \<le> 0.0021649" by simp
    have "(4.68675 / 10 ^ 6 :: real) \<le> 0.0021649\<^sup>2" by (simp add: power_divide)
    with ab(2) show "a \<le> (0.0021649 :: real)\<^sup>2" by linarith
  qed
  have co: "0.99999 \<le> sqrt (1 - a)"
  proof (rule real_le_rsqrt)
    have "(0.99999 :: real)\<^sup>2 \<le> 1 - 4.68675 / 10 ^ 6" by (simp add: power_divide)
    with ab(2) show "(0.99999 :: real)\<^sup>2 \<le> 1 - a" by linarith
  qed
  have "sqrt a / sqrt (1 - a) \<le> 0.0021649 / 0.99999"
    using hi co a0 by (intro frac_le) simp_all
  then have up: "arcsin (sqrt a) \<le> 0.0021649 / 0.99999"
    using arcsin_sqrt_bounds(2) [OF a0] by linarith
  have dn: "0.0021648 \<le> arcsin (sqrt a)"
    using arcsin_sqrt_bounds(1) [OF a0] lo by linarith
  have d: "calculateDistance worked_example = 6371 * (2 * arcsin (sqrt a))"
    by (simp add: calculateDistance_arcsin a_def)
  show "27.58 < calculateDistance worked_example" unfolding d using dn by simp
  show "calculateDistance worked_example < 27.59" unfolding d using up by simp
qed

lemma worked_example_weightNum:
  "js_or (parseFloat (weight worked_example)) (Fin (1 / 2)) = Fin (1 / 2)"
  by (simp add: worked_example_def parseFloat_half js_or_def)

lemma worked_example_weightNum': "weightNum worked_example = Fin (1 / 2)"
  using worked_example_weightNum by (simp add: weightNum_def)

lemma worked_example_price: "calculatePrice worked_example = 135"
proof -
  define d where "d = calculateDistance worked_example"
  have db: "27.58 < d" "d < 27.59"
    unfolding d_def by (rule worked_example_distance)+
  have t: "timing worked_example = within_2h"
    by (simp add: worked_example_def)
  have b: "base_price d = 25 + 4 * d" using db by (simp add: base_price_def)
  have "calculatePrice worked_example = Math_round (25 + 4 * d)"
    by (simp add: calculatePrice_def worked_example_weightNum' t price_of_def b
          apply_weight_def apply_timing_def js_ge_def flip: d_def)
  also have "\<dots> = 135"
    unfolding Math_round_def using db by (intro floor_unique) simp_all
  finally show ?thesis .
qed

text \<open>
  Claim C2, amended.  For pickup (15.4909, 73.8278), drop-off (15.2832, 73.9685), a
  weight of 0.5 kg and delivery within two hours, the haversine distance computed by the
  program lies between 27.58 and 27.59 km and the computed price is
  \<open>round (25 + 4 * 27.58\<dots>) = 135\<close>; neither multiplier is applied.
\<close>

theorem worked_example_distance_and_price:
  "27.58 < calculateDistance worked_example \<and> calculateDistance worked_example < 27.59 \<and>
   calculatePrice worked_example = 135 \<and>
   apply_weight (js_or (parseFloat (weight worked_example)) (Fin 0.5)) p = p \<and>
   apply_timing (timing worked_example) p = p"
proof -
  have w: "apply_weight (js_or (parseFloat (weight worked_example)) (Fin 0.5)) p = p"
    by (simp add: worked_example_weightNum apply_weight_def js_ge_def)
  have t: "apply_timing (timing worked_example) p = p"
    by (simp add: apply_timing_def worked_example_def)
  from worked_example_distance worked_example_price w t show ?thesis by blast
qed

text \<open>
  The claim as stated fails: the distance of the example is below 28 km, not about
  33 km, and the price is not 157.
\<close>

theorem worked_example_not_157:
  "calculateDistance worked_example < 28 \<and> calculatePrice worked_example \<noteq> 157"
  using worked_example_distance(2) worked_example_price by simp

end
